theory Spec2Isabelle
  imports Main "HOL-Library.Char_ord" "HOL-Library.List_Lexorder" "HOL-Library.Word"
begin

section \<open>Data model of the template helpers\<close>

text \<open>
  Go strings are byte sequences; \<^typ>\<open>string\<close> is a list of 8-bit characters, compared
  bytewise and lexicographically (a proper prefix is smaller), as Go's \<^verbatim>\<open><\<close> on strings.

  \<^verbatim>\<open>routev1.TLSTerminationType\<close> is a string type with three named constants.
\<close>

definition TLSTerminationEdge :: string where
  "TLSTerminationEdge = ''edge''"

definition TLSTerminationPassthrough :: string where
  "TLSTerminationPassthrough = ''passthrough''"

definition TLSTerminationReencrypt :: string where
  "TLSTerminationReencrypt = ''reencrypt''"

record Certificate =
  Contents :: string

record Endpoint =
  ID :: string
  IP :: string
  Port :: string
  PortName :: string

record ServiceUnit =
  EndpointTable :: "Endpoint list"

text \<open>
  The fields of \<^verbatim>\<open>ServiceAliasConfig\<close> that the helpers read. A Go map with string keys is a
  partial function; reading a missing key gives the zero value of the element type.
\<close>

record ServiceAliasConfig =
  Host :: string
  Path :: string
  IsWildcard :: bool
  TLSTermination :: string
  InsecureEdgeTerminationPolicy :: string
  PreferPort :: string
  Certificates :: "string \<rightharpoonup> Certificate"

definition zeroCertificate :: Certificate where
  "zeroCertificate = \<lparr>Contents = []\<rparr>"

definition zeroServiceAliasConfig :: ServiceAliasConfig where
  "zeroServiceAliasConfig =
     \<lparr>Host = [], Path = [], IsWildcard = False, TLSTermination = [],
      InsecureEdgeTerminationPolicy = [], PreferPort = [], Certificates = Map.empty\<rparr>"

text \<open>
  A Go map that the code ranges over is an association list with distinct keys: the order of
  the list is the (unspecified) iteration order, so a statement for every list covers every
  order the runtime may choose. \<open>aliasLookup\<close> is the index expression \<^verbatim>\<open>aliases[k]\<close>.
\<close>

type_synonym AliasTable = "(string \<times> ServiceAliasConfig) list"

definition aliasLookup :: "AliasTable \<Rightarrow> string \<Rightarrow> ServiceAliasConfig" where
  "aliasLookup aliases k =
     (case map_of aliases k of None \<Rightarrow> zeroServiceAliasConfig | Some a \<Rightarrow> a)"

section \<open>The template helpers\<close>

subsection \<open>endpointsForAlias\<close>

text \<open>
  The loop of \<^verbatim>\<open>endpointsForAlias\<close> appends every endpoint whose port name or port equals the
  preferred port to an initially empty slice.
\<close>

definition endpointsLoopStep :: "string \<Rightarrow> Endpoint list \<Rightarrow> Endpoint \<Rightarrow> Endpoint list" where
  "endpointsLoopStep preferPort endpoints endpoint =
     (if PortName endpoint = preferPort \<or> Port endpoint = preferPort
      then endpoints @ [endpoint] else endpoints)"

definition endpointsForAlias :: "ServiceAliasConfig \<Rightarrow> ServiceUnit \<Rightarrow> Endpoint list" where
  "endpointsForAlias alias svc =
     (if length (PreferPort alias) = 0 then EndpointTable svc
      else foldl (endpointsLoopStep (PreferPort alias)) [] (EndpointTable svc))"

subsection \<open>getHTTPAliasesGroupedByHost\<close>

text \<open>
  The result maps a host to a bucket, itself a map from alias key to alias. One iteration of
  the loop skips a passthrough alias; otherwise it creates the bucket of the alias's host when
  it does not exist yet and stores the alias under its key. \<open>groupedAlias\<close> reads
  \<^verbatim>\<open>result[host][k]\<close> with the presence flag.
\<close>

type_synonym AliasGroups = "string \<rightharpoonup> (string \<rightharpoonup> ServiceAliasConfig)"

definition groupStep :: "AliasGroups \<Rightarrow> string \<times> ServiceAliasConfig \<Rightarrow> AliasGroups" where
  "groupStep result ka =
     (case ka of (k, a) \<Rightarrow>
        if TLSTermination a = TLSTerminationPassthrough then result
        else (case result (Host a) of
                None \<Rightarrow> result(Host a \<mapsto> Map.empty(k \<mapsto> a))
              | Some bucket \<Rightarrow> result(Host a \<mapsto> bucket(k \<mapsto> a))))"

definition getHTTPAliasesGroupedByHost :: "AliasTable \<Rightarrow> AliasGroups" where
  "getHTTPAliasesGroupedByHost aliases = foldl groupStep Map.empty aliases"

definition groupedAlias :: "AliasGroups \<Rightarrow> string \<Rightarrow> string \<Rightarrow> ServiceAliasConfig option" where
  "groupedAlias result host k = (case result host of None \<Rightarrow> None | Some bucket \<Rightarrow> bucket k)"

subsection \<open>getPrimaryAliasKey\<close>

text \<open>
  \<^verbatim>\<open>sort.Sort(sort.Reverse(sort.StringSlice(keys)))\<close> orders the slice descending. Strings
  that compare equal are identical, so the outcome does not depend on the sorting algorithm.

  \<^verbatim>\<open>keys := make([]string, len(aliases))\<close> has \<open>len(aliases)\<close> empty strings already when
  the keys are appended to it. The first loop (taken when there is one alias) returns at its
  first iteration. \<^verbatim>\<open>keys[0]\<close> panics on an empty slice, written out as \<open>IndexOutOfRange\<close>.
  \<open>terminatedKeys\<close> is the set of keys whose alias terminates TLS at the router (edge or
  reencrypt); it is used in the statements only.
\<close>

datatype go_panic = IndexOutOfRange

definition isTLSTerminated :: "ServiceAliasConfig \<Rightarrow> bool" where
  "isTLSTerminated a \<longleftrightarrow>
     TLSTermination a = TLSTerminationEdge \<or> TLSTermination a = TLSTerminationReencrypt"

definition sortReverseStrings :: "string list \<Rightarrow> string list" where
  "sortReverseStrings xs = rev (sort xs)"

definition firstRangeKey :: "AliasTable \<Rightarrow> string option" where
  "firstRangeKey aliases = (case aliases of [] \<Rightarrow> None | (k, _) # _ \<Rightarrow> Some k)"

definition getPrimaryAliasKey :: "AliasTable \<Rightarrow> go_panic + string" where
  "getPrimaryAliasKey aliases =
     (if length aliases = 0 then Inr []
      else
        (case (if length aliases = 1 then firstRangeKey aliases else None) of
           Some k \<Rightarrow> Inr k
         | None \<Rightarrow>
             (let keys = sortReverseStrings
                           (replicate (length aliases) [] @ map fst aliases)
              in case List.find (\<lambda>k. isTLSTerminated (aliasLookup aliases k)) keys of
                   Some k \<Rightarrow> Inr k
                 | None \<Rightarrow> (case keys of [] \<Rightarrow> Inl IndexOutOfRange | k0 # _ \<Rightarrow> Inr k0))))"

definition terminatedKeys :: "AliasTable \<Rightarrow> string set" where
  "terminatedKeys aliases = {k. \<exists>a. (k, a) \<in> set aliases \<and> isTLSTerminated a}"

subsection \<open>cachedRegexpCompile and firstMatch\<close>

text \<open>
  The package variable \<^verbatim>\<open>compiledRegexp\<close> is state: \<open>store\<close> is the content of the
  \<^verbatim>\<open>sync.Map\<close> (pattern text to compiled expression). \<open>calls\<close> records, in order, the calls
  of \<^verbatim>\<open>regexp.Compile\<close> and of \<^verbatim>\<open>compiledRegexp.Store\<close> that the code makes, so that "compiled
  again" and "written again" can be stated. The helpers take the state and return the new one.

  The standard library's \<^verbatim>\<open>regexp.Compile\<close> (an error or a compiled expression) and
  \<^verbatim>\<open>(*Regexp).MatchString\<close> are parameters \<open>regexpCompile\<close> and \<open>matchString\<close>: the
  statements hold for whatever the regular expression engine does.
\<close>

datatype libcall = RegexpCompile string | SyncMapStore string

record 're RegexpCache =
  store :: "string \<rightharpoonup> 're"
  calls :: "libcall list"

definition cachedRegexpCompile ::
  "(string \<Rightarrow> 'e + 're) \<Rightarrow> 're RegexpCache \<Rightarrow> string \<Rightarrow> ('e + 're) \<times> 're RegexpCache" where
  "cachedRegexpCompile regexpCompile compiledRegexp pattern =
     (case store compiledRegexp pattern of
        None \<Rightarrow>
          (let compiled = compiledRegexp\<lparr>calls := calls compiledRegexp @ [RegexpCompile pattern]\<rparr>
           in case regexpCompile pattern of
                Inl err \<Rightarrow> (Inl err, compiled)
              | Inr re \<Rightarrow>
                  (Inr re,
                   compiled\<lparr>store := (store compiled)(pattern \<mapsto> re),
                            calls := calls compiled @ [SyncMapStore pattern]\<rparr>))
      | Some v \<Rightarrow> (Inr v, compiledRegexp))"

text \<open>The pattern text \<^verbatim>\<open>\A(?:\<close> + pattern + \<^verbatim>\<open>)\z\<close>.\<close>

definition backslash :: char where
  "backslash = CHR 0x5C"





definition emptyRegexpCache :: "'re RegexpCache" where
  "emptyRegexpCache = \<lparr>store = Map.empty, calls = []\<rparr>"

subsection \<open>clipHAProxyTimeoutValue\<close>

text \<open>
  \<^verbatim>\<open>haproxytime.ParseDuration\<close> returns a \<^verbatim>\<open>time.Duration\<close> (a signed 64-bit integer) and
  an error, which the switch compares with \<^verbatim>\<open>nil\<close> and with the package's two error values;
  \<open>OtherError\<close> stands for any other error. The parser and the three constants of the
  \<^verbatim>\<open>templateutil\<close> package are parameters.
\<close>

datatype durationError = OverflowError | SyntaxError | OtherError

definition clipHAProxyTimeoutValue ::
  "(string \<Rightarrow> 64 word \<times> durationError option) \<Rightarrow> string \<Rightarrow> string \<Rightarrow> 64 word \<Rightarrow> string \<Rightarrow> string" where
  "clipHAProxyTimeoutValue ParseDuration HaproxyMaxTimeout HaproxyDefaultTimeout
       HaproxyMaxTimeoutDuration val =
     (if length val = 0 then val
      else
        (case ParseDuration val of
           (duration, Some OverflowError) \<Rightarrow> HaproxyMaxTimeout
         | (duration, Some SyntaxError) \<Rightarrow> []
         | (duration, Some OtherError) \<Rightarrow> HaproxyDefaultTimeout
         | (duration, None) \<Rightarrow>
             if sint HaproxyMaxTimeoutDuration < sint duration then HaproxyMaxTimeout
             else val))"

subsection \<open>generateHAProxyCertConfigMap\<close>

text \<open>
  \<^verbatim>\<open>haproxyutil.BackendConfig\<close> (its \<^verbatim>\<open>Host\<close>, \<^verbatim>\<open>Path\<close> and \<^verbatim>\<open>IsWildcard\<close> fields carry the
  prefix \<open>Backend\<close> here, the names being taken by the alias), the map entry with its key and
  value, and the fields of \<^verbatim>\<open>templateData\<close> that the helper reads.
\<close>

record BackendConfig =
  Name :: string
  BackendHost :: string
  BackendPath :: string
  BackendIsWildcard :: bool
  Termination :: string
  InsecurePolicy :: string
  HasCertificate :: bool

record HAProxyMapEntry =
  Key :: string
  Value :: string

record templateData =
  WorkingDir :: string
  State :: AliasTable
  CertificateIndex :: "string \<rightharpoonup> int"
  DisableHTTP2 :: bool

definition certConfigMap :: string where
  "certConfigMap = ''cert_config.map''"

definition backendConfig :: "string \<Rightarrow> ServiceAliasConfig \<Rightarrow> bool \<Rightarrow> BackendConfig" where
  "backendConfig name cfg hascert =
     \<lparr>Name = name,
      BackendHost = Host cfg,
      BackendPath = Path cfg,
      BackendIsWildcard = IsWildcard cfg,
      Termination = TLSTermination cfg,
      InsecurePolicy = InsecureEdgeTerminationPolicy cfg,
      HasCertificate = hascert\<rparr>"

text \<open>\<^verbatim>\<open>strings.Join(elems, sep)\<close>.\<close>

fun strings_Join :: "string list \<Rightarrow> string \<Rightarrow> string" where
  "strings_Join [] sep = []"
| "strings_Join [x] sep = x"
| "strings_Join (x # y # ys) sep = x @ sep @ strings_Join (y # ys) sep"

text \<open>
  The collaborators that are not part of the file are parameters: \<open>generateCertKey\<close>, the
  map-entry encoder \<open>GenerateMapEntry\<close> (\<open>None\<close> is the nil entry), \<^verbatim>\<open>path.Join\<close> and the
  constant \<open>certDir\<close>.

  \<open>aliasCertificate\<close> is the first part of the loop body: the variables \<^verbatim>\<open>cert\<close> and
  \<^verbatim>\<open>hascert\<close> after the \<^verbatim>\<open>if len(cfg.Host) > 0\<close> block. The certificate stays the zero value
  when the host is empty or the key is not in \<open>Certificates\<close>. Reading \<open>CertificateIndex\<close> at a
  missing key gives \<open>0\<close>.
\<close>

definition aliasCertificate ::
  "(ServiceAliasConfig \<Rightarrow> string) \<Rightarrow> ServiceAliasConfig \<Rightarrow> Certificate \<times> bool" where
  "aliasCertificate generateCertKey cfg =
     (if length (Host cfg) > 0
      then (case Certificates cfg (generateCertKey cfg) of
              None \<Rightarrow> (zeroCertificate, False)
            | Some cert \<Rightarrow> (cert, length (Contents cert) > 0))
      else (zeroCertificate, False))"

definition certificateIndexCount :: "templateData \<Rightarrow> string \<Rightarrow> int" where
  "certificateIndexCount td contents =
     (case CertificateIndex td contents of None \<Rightarrow> 0 | Some n \<Rightarrow> n)"

text \<open>
  \<open>certConfigMapLine\<close> is the line that one iteration appends, if any; \<open>certConfigMapStep\<close> is
  the iteration on the slice \<^verbatim>\<open>lines\<close>. The lines are sorted descending at the end, which makes
  the result independent of the iteration order of the map.
\<close>

definition certConfigMapLine ::
  "(ServiceAliasConfig \<Rightarrow> string) \<Rightarrow> (string \<Rightarrow> BackendConfig \<Rightarrow> HAProxyMapEntry option) \<Rightarrow>
   (string list \<Rightarrow> string) \<Rightarrow> string \<Rightarrow> templateData \<Rightarrow> string \<times> ServiceAliasConfig \<Rightarrow>
   string option" where
  "certConfigMapLine generateCertKey GenerateMapEntry path_Join certDir td kcfg =
     (case kcfg of (k, cfg) \<Rightarrow>
        (case aliasCertificate generateCertKey cfg of (cert, hascert) \<Rightarrow>
           (case GenerateMapEntry certConfigMap (backendConfig k cfg hascert) of
              None \<Rightarrow> None
            | Some entry \<Rightarrow>
                (let fqCertPath = path_Join [WorkingDir td, certDir, Key entry]
                 in if DisableHTTP2 td \<or> certificateIndexCount td (Contents cert) > 1
                    then Some (strings_Join [fqCertPath, Value entry] '' '')
                    else Some (strings_Join
                                 [fqCertPath, ''[alpn h2,http/1.1]'', Value entry] '' '')))))"

definition certConfigMapStep ::
  "(ServiceAliasConfig \<Rightarrow> string) \<Rightarrow> (string \<Rightarrow> BackendConfig \<Rightarrow> HAProxyMapEntry option) \<Rightarrow>
   (string list \<Rightarrow> string) \<Rightarrow> string \<Rightarrow> templateData \<Rightarrow> string list \<Rightarrow>
   string \<times> ServiceAliasConfig \<Rightarrow> string list" where
  "certConfigMapStep generateCertKey GenerateMapEntry path_Join certDir td lines kcfg =
     (case certConfigMapLine generateCertKey GenerateMapEntry path_Join certDir td kcfg of
        None \<Rightarrow> lines
      | Some line \<Rightarrow> lines @ [line])"

definition generateHAProxyCertConfigMap ::
  "(ServiceAliasConfig \<Rightarrow> string) \<Rightarrow> (string \<Rightarrow> BackendConfig \<Rightarrow> HAProxyMapEntry option) \<Rightarrow>
   (string list \<Rightarrow> string) \<Rightarrow> string \<Rightarrow> templateData \<Rightarrow> string list" where
  "generateHAProxyCertConfigMap generateCertKey GenerateMapEntry path_Join certDir td =
     sortReverseStrings
       (foldl (certConfigMapStep generateCertKey GenerateMapEntry path_Join certDir td) []
          (State td))"

subsection \<open>parseIPList\<close>

text \<open>
  \<^verbatim>\<open>strings.TrimSpace\<close> and \<^verbatim>\<open>strings.Fields\<close> work on the white space of \<^verbatim>\<open>unicode.IsSpace\<close>
  in the UTF-8 reading of the string: the six ASCII characters tab, line feed, vertical tab,
  form feed, carriage return and space, and the code points U+0085, U+00A0, U+1680, U+2000 to
  U+200A, U+2028, U+2029, U+202F, U+205F and U+3000. \<open>spaceWidth s\<close> is the number of bytes of
  the white space character that \<open>s\<close> starts with, \<open>0\<close> when it starts with none;
  \<open>trailingSpaceWidth\<close> is the same for the end of \<open>s\<close>. The first byte of each of these
  encodings is not a continuation byte, so a white space character starts at a byte exactly
  when the decoder finds it there, and the other characters can be passed a byte at a time.
\<close>

definition asciiSpace :: "char \<Rightarrow> bool" where
  "asciiSpace c \<longleftrightarrow>
     c = CHR 0x09 \<or> c = CHR 0x0A \<or> c = CHR 0x0B \<or> c = CHR 0x0C \<or> c = CHR 0x0D \<or> c = CHR 0x20"

fun spaceWidth :: "string \<Rightarrow> nat" where
  "spaceWidth [] = 0"
| "spaceWidth (c # cs) =
     (if asciiSpace c then 1
      else if c = CHR 0xC2 then
        (case cs of
           c1 # _ \<Rightarrow> if c1 = CHR 0x85 \<or> c1 = CHR 0xA0 then 2 else 0
         | _ \<Rightarrow> 0)
      else if c = CHR 0xE1 then
        (case cs of
           c1 # c2 # _ \<Rightarrow> if c1 = CHR 0x9A \<and> c2 = CHR 0x80 then 3 else 0
         | _ \<Rightarrow> 0)
      else if c = CHR 0xE2 then
        (case cs of
           c1 # c2 # _ \<Rightarrow>
             if c1 = CHR 0x80 \<and>
                  ((0x80 \<le> (of_char c2 :: nat) \<and> (of_char c2 :: nat) \<le> 0x8A) \<or>
                   c2 = CHR 0xA8 \<or> c2 = CHR 0xA9 \<or> c2 = CHR 0xAF)
                \<or> c1 = CHR 0x81 \<and> c2 = CHR 0x9F
             then 3 else 0
         | _ \<Rightarrow> 0)
      else if c = CHR 0xE3 then
        (case cs of
           c1 # c2 # _ \<Rightarrow> if c1 = CHR 0x80 \<and> c2 = CHR 0x80 then 3 else 0
         | _ \<Rightarrow> 0)
      else 0)"

definition trailingSpaceWidth :: "string \<Rightarrow> nat" where
  "trailingSpaceWidth s =
     (if 1 \<le> length s \<and> spaceWidth (drop (length s - 1) s) = 1 then 1
      else if 2 \<le> length s \<and> spaceWidth (drop (length s - 2) s) = 2 then 2
      else if 3 \<le> length s \<and> spaceWidth (drop (length s - 3) s) = 3 then 3
      else 0)"

lemma spaceWidth_pos_nonempty: "0 < spaceWidth s \<Longrightarrow> s \<noteq> []"
  by (cases s) auto

lemma spaceWidth_drop_less: "0 < spaceWidth s \<Longrightarrow> length s - spaceWidth s < length s"
  using spaceWidth_pos_nonempty [of s] by (cases s) simp_all

text \<open>\<^verbatim>\<open>strings.TrimSpace\<close>: white space is cut from the start, then from the end.\<close>

function trimLeftSpace :: "string \<Rightarrow> string" where
  "trimLeftSpace s = (if spaceWidth s = 0 then s else trimLeftSpace (drop (spaceWidth s) s))"
  by pat_completeness auto
termination
  by (relation "measure length") (simp_all add: spaceWidth_drop_less)

lemma trailingSpaceWidth_pos_nonempty: "0 < trailingSpaceWidth s \<Longrightarrow> s \<noteq> []"
  by (auto simp: trailingSpaceWidth_def)

lemma trailingSpaceWidth_take_less:
  "0 < trailingSpaceWidth s \<Longrightarrow> length s - trailingSpaceWidth s < length s"
  using trailingSpaceWidth_pos_nonempty [of s] by (cases s) simp_all

function trimRightSpace :: "string \<Rightarrow> string" where
  "trimRightSpace s =
     (if trailingSpaceWidth s = 0 then s
      else trimRightSpace (take (length s - trailingSpaceWidth s) s))"
  by pat_completeness auto
termination
  by (relation "measure length") (simp_all add: trailingSpaceWidth_take_less)

definition strings_TrimSpace :: "string \<Rightarrow> string" where
  "strings_TrimSpace s = trimRightSpace (trimLeftSpace s)"

text \<open>
  \<^verbatim>\<open>strings.Fields\<close>: the maximal runs of characters that are not white space, in order;
  \<open>field\<close> is the run being read.
\<close>

function fieldsFrom :: "string \<Rightarrow> string \<Rightarrow> string list" where
  "fieldsFrom field s =
     (if s = [] then (if field = [] then [] else [field])
      else if spaceWidth s = 0 then fieldsFrom (field @ [hd s]) (tl s)
      else (if field = [] then [] else [field]) @ fieldsFrom [] (drop (spaceWidth s) s))"
  by pat_completeness auto
termination
  by (relation "measure (\<lambda>(field, s). length s)") (simp_all add: spaceWidth_drop_less)

definition strings_Fields :: "string \<Rightarrow> string list" where
  "strings_Fields s = fieldsFrom [] s"

declare trimLeftSpace.simps [simp del] trimRightSpace.simps [simp del] fieldsFrom.simps [simp del]

text \<open>
  \<^verbatim>\<open>net.ParseIP\<close> (\<open>None\<close> is the nil address) and \<^verbatim>\<open>net.ParseCIDR\<close> (an error or a network)
  are parameters. \<open>parseIPListStep\<close> is one iteration of the loop over the tokens;
  \<open>validIPOrCIDR\<close> says that the iteration keeps the token.
\<close>

definition validIPOrCIDR ::
  "(string \<Rightarrow> 'ip option) \<Rightarrow> (string \<Rightarrow> 'e + 'net) \<Rightarrow> string \<Rightarrow> bool" where
  "validIPOrCIDR ParseIP ParseCIDR ip \<longleftrightarrow>
     (if ParseIP ip \<noteq> None then True
      else (case ParseCIDR ip of Inr _ \<Rightarrow> True | Inl err \<Rightarrow> False))"

definition parseIPListStep ::
  "(string \<Rightarrow> 'ip option) \<Rightarrow> (string \<Rightarrow> 'e + 'net) \<Rightarrow> string list \<Rightarrow> string \<Rightarrow> string list" where
  "parseIPListStep ParseIP ParseCIDR validIPs ip =
     (if ParseIP ip \<noteq> None then validIPs @ [ip]
      else (case ParseCIDR ip of Inr _ \<Rightarrow> validIPs @ [ip] | Inl err \<Rightarrow> validIPs))"

definition parseIPList ::
  "(string \<Rightarrow> 'ip option) \<Rightarrow> (string \<Rightarrow> 'e + 'net) \<Rightarrow> string \<Rightarrow> string" where
  "parseIPList ParseIP ParseCIDR list =
     (let trimmedList = strings_TrimSpace list
      in if trimmedList = [] then []
         else if trimmedList \<noteq> list then []
         else
           (let ipList = strings_Fields list;
                validIPs = foldl (parseIPListStep ParseIP ParseCIDR) [] ipList
            in if length validIPs = 0 then [] else strings_Join validIPs '' ''))"

subsection \<open>genSubdomainWildcardRegexp\<close>

text \<open>
  \<^verbatim>\<open>regexp.QuoteMeta\<close> puts a backslash before each of the fourteen special characters of
  the syntax. \<open>fmt.Sprintf\<close> with \<^verbatim>\<open>%s\<close> verbs only is concatenation. The domain helper
  \<^verbatim>\<open>routeapihelpers.GetDomainForHost\<close> is the parameter \<open>domainForHost\<close>.
\<close>

definition regexpSpecial :: "char \<Rightarrow> bool" where
  "regexpSpecial c \<longleftrightarrow> c \<in> set (backslash # ''.+*?()|[]{}^$'')"

definition regexp_QuoteMeta :: "string \<Rightarrow> string" where
  "regexp_QuoteMeta s = concat (map (\<lambda>c. if regexpSpecial c then [backslash, c] else [c]) s)"

definition genSubdomainWildcardRegexp ::
  "(string \<Rightarrow> string) \<Rightarrow> string \<Rightarrow> string \<Rightarrow> bool \<Rightarrow> string" where
  "genSubdomainWildcardRegexp domainForHost hostname path exactPath =
     (let subdomain = domainForHost hostname
      in if length subdomain = 0 then hostname @ path
         else
           (let expr = regexp_QuoteMeta (''.'' @ subdomain @ path)
            in if exactPath then ''^[^'' @ [backslash] @ ''.]*'' @ expr @ ''$''
               else ''^[^'' @ [backslash] @ ''.]*'' @ expr @ ''(|/.*)$''))"

text \<open>
  What the returned text matches is a matter of the regular expression engine. The part of
  the syntax of \<^verbatim>\<open>regexp.Compile\<close> that the generated patterns use is modelled here, on
  bytes, for patterns of ASCII characters: literal characters (every character but the
  fourteen special ones stands for itself, and so does a backslash followed by an ASCII
  character that is not a letter or digit), the dot (any character but line feed), a negated
  class of literal characters (which does match line feed), the star on one of these, a group
  of alternatives without inner groups, and \<^verbatim>\<open>^\<close> and \<^verbatim>\<open>$\<close> as the first and last character,
  where they stand for the start and the end of the text. \<open>regexp_Compile\<close> gives \<open>None\<close> for
  a pattern outside this part, which says nothing about what the library does with it.
  \<open>Regexp_MatchString\<close> is the method \<^verbatim>\<open>(*Regexp).MatchString\<close>: some substring matches, from
  the start and to the end of the text where the pattern is anchored; \<open>regexp_MatchString\<close> is
  the function of the package, which compiles and matches. The engine decodes the text into
  UTF-8 characters; for an ASCII pattern of this part that gives the same matches as reading
  bytes, since the dot and the negated class then take any byte but their ASCII exceptions.
\<close>

datatype rxAtom = Lit char | NotOneOf "char list" | AnyCharNotNL

datatype rxSimple = One rxAtom | Star rxAtom

datatype rxItem = Simple rxSimple | Group "rxSimple list list"

datatype regexp = Regexp bool "rxItem list" bool

definition isASCII :: "char \<Rightarrow> bool" where
  "isASCII c \<longleftrightarrow> (of_char c :: nat) < 128"

definition isAlnum :: "char \<Rightarrow> bool" where
  "isAlnum c \<longleftrightarrow>
     (48 \<le> (of_char c :: nat) \<and> (of_char c :: nat) \<le> 57) \<or>
     (65 \<le> (of_char c :: nat) \<and> (of_char c :: nat) \<le> 90) \<or>
     (97 \<le> (of_char c :: nat) \<and> (of_char c :: nat) \<le> 122)"

definition consParsed :: "'a \<Rightarrow> ('a list \<times> string) option \<Rightarrow> ('a list \<times> string) option" where
  "consParsed x r = map_option (\<lambda>(xs, rest). (x # xs, rest)) r"

fun parseClassMembers :: "string \<Rightarrow> (char list \<times> string) option" where
  "parseClassMembers [] = None"
| "parseClassMembers (c # s) =
     (if c = CHR '']'' then Some ([], s)
      else if c = backslash then
        (case s of
           [] \<Rightarrow> None
         | e # s' \<Rightarrow>
             if isASCII e \<and> \<not> isAlnum e then consParsed e (parseClassMembers s') else None)
      else if c \<in> set ''[-^:'' \<or> \<not> isASCII c then None
      else consParsed c (parseClassMembers s))"

fun parseAtom :: "string \<Rightarrow> (rxAtom \<times> string) option" where
  "parseAtom [] = None"
| "parseAtom (c # s) =
     (if c = backslash then
        (case s of
           [] \<Rightarrow> None
         | e # s' \<Rightarrow> if isASCII e \<and> \<not> isAlnum e then Some (Lit e, s') else None)
      else if c = CHR ''.'' then Some (AnyCharNotNL, s)
      else if c = CHR ''['' then
        (case s of
           n # m # s' \<Rightarrow>
             if n = CHR ''^'' \<and> m \<noteq> CHR '']''
             then map_option (\<lambda>(ms, rest). (NotOneOf ms, rest)) (parseClassMembers (m # s'))
             else None
         | _ \<Rightarrow> None)
      else if regexpSpecial c \<or> \<not> isASCII c then None
      else Some (Lit c, s))"

lemma parseClassMembers_shorter:
  "parseClassMembers s = Some (ms, rest) \<Longrightarrow> length rest < length s"
  by (induction s arbitrary: ms rest rule: parseClassMembers.induct)
     (fastforce simp: consParsed_def split: if_splits list.splits)+

lemma parseAtom_shorter: "parseAtom s = Some (a, rest) \<Longrightarrow> length rest < length s"
  by (cases s)
     (auto split: if_splits list.splits dest!: parseClassMembers_shorter
           simp del: parseClassMembers.simps)

function parseSimples :: "string \<Rightarrow> (rxSimple list \<times> string) option" where
  "parseSimples s =
     (if s = [] then Some ([], [])
      else if hd s \<in> set ''|()$'' then Some ([], s)
      else
        (case parseAtom s of
           None \<Rightarrow> None
         | Some (a, rest) \<Rightarrow>
             if rest \<noteq> [] \<and> hd rest = CHR ''*''
             then consParsed (Star a) (parseSimples (tl rest))
             else consParsed (One a) (parseSimples rest)))"
  by pat_completeness auto
termination
proof (relation "measure length")
  show "wf (measure length)" by simp
next
  fix s :: string and x2 x y
  assume "parseAtom s = Some x2" "(x, y) = x2" "y \<noteq> [] \<and> hd y = CHR ''*''"
  then have "length y < length s" using parseAtom_shorter [of s x y] by simp
  then show "(tl y, s) \<in> measure length" by simp
next
  fix s :: string and x2 x y
  assume "parseAtom s = Some x2" "(x, y) = x2"
  then have "length y < length s" using parseAtom_shorter [of s x y] by simp
  then show "(y, s) \<in> measure length" by simp
qed

declare parseSimples.simps [simp del]

lemma parseSimples_length: "parseSimples s = Some (xs, rest) \<Longrightarrow> length rest \<le> length s"
proof (induction s arbitrary: xs rest rule: parseSimples.induct)
  case (1 s)
  show ?case
  proof (cases "s = [] \<or> hd s \<in> set ''|()$''")
    case True
    with "1.prems" show ?thesis by (auto simp: parseSimples.simps split: if_splits)
  next
    case False
    then have ne: "s \<noteq> []" and nh: "hd s \<notin> set ''|()$''" by auto
    from "1.prems" False obtain a r where pa: "parseAtom s = Some (a, r)"
      by (subst (asm) parseSimples.simps) (auto split: option.splits)
    then have lr: "length r < length s" by (rule parseAtom_shorter)
    show ?thesis
    proof (cases "r \<noteq> [] \<and> hd r = CHR ''*''")
      case True
      with "1.prems" ne nh pa obtain ys where
        "parseSimples (tl r) = Some (ys, rest)"
        by (subst (asm) parseSimples.simps) (auto simp: consParsed_def)
      with "1.IH"(1) [OF ne nh pa refl True] have "length rest \<le> length (tl r)" by simp
      with lr show ?thesis by simp
    next
      case False
      with "1.prems" ne nh pa obtain ys where
        "parseSimples r = Some (ys, rest)"
        by (subst (asm) parseSimples.simps) (auto simp: consParsed_def)
      with "1.IH"(2) [OF ne nh pa refl False] have "length rest \<le> length r" by simp
      with lr show ?thesis by simp
    qed
  qed
qed

function parseAlts :: "string \<Rightarrow> (rxSimple list list \<times> string) option" where
  "parseAlts s =
     (case parseSimples s of
        None \<Rightarrow> None
      | Some (alt, rest) \<Rightarrow>
          if rest = [] then None
          else if hd rest = CHR ''|'' then consParsed alt (parseAlts (tl rest))
          else if hd rest = CHR '')'' then Some ([alt], tl rest)
          else None)"
  by pat_completeness auto
termination
proof (relation "measure length")
  show "wf (measure length)" by simp
next
  fix s :: string and x2 x y
  assume "parseSimples s = Some x2" "(x, y) = x2" "y \<noteq> []"
  then have "length y \<le> length s" "y \<noteq> []" using parseSimples_length [of s x y] by simp_all
  then show "(tl y, s) \<in> measure length" by (cases y) simp_all
qed

declare parseAlts.simps [simp del]

lemma parseAlts_shorter: "parseAlts s = Some (alts, rest) \<Longrightarrow> length rest < length s"
proof (induction s arbitrary: alts rest rule: parseAlts.induct)
  case (1 s)
  from "1.prems" obtain alt r where ps: "parseSimples s = Some (alt, r)"
    by (subst (asm) parseAlts.simps) (auto split: option.splits)
  then have lr: "length r \<le> length s" by (rule parseSimples_length)
  from "1.prems" ps have ne: "r \<noteq> []"
    by (subst (asm) parseAlts.simps) (auto split: if_splits)
  show ?case
  proof (cases "hd r = CHR ''|''")
    case True
    with "1.prems" ps ne obtain ys where "parseAlts (tl r) = Some (ys, rest)"
      by (subst (asm) parseAlts.simps) (auto simp: consParsed_def)
    with "1.IH" [OF ps refl ne True] have "length rest < length (tl r)" by simp
    with lr show ?thesis by simp
  next
    case False
    with "1.prems" ps ne have "rest = tl r"
      by (subst (asm) parseAlts.simps) (auto split: if_splits)
    with ne lr show ?thesis by (cases r) simp_all
  qed
qed

function parseItems :: "string \<Rightarrow> (rxItem list \<times> bool) option" where
  "parseItems s =
     (case parseSimples s of
        None \<Rightarrow> None
      | Some (simples, rest) \<Rightarrow>
          if rest = [] then Some (map Simple simples, False)
          else if hd rest = CHR ''$'' then
            (if tl rest = [] then Some (map Simple simples, True) else None)
          else if hd rest = CHR ''('' then
            (case parseAlts (tl rest) of
               None \<Rightarrow> None
             | Some (alts, rest') \<Rightarrow>
                 map_option (\<lambda>(items, endText). (map Simple simples @ Group alts # items, endText))
                   (parseItems rest'))
          else None)"
  by pat_completeness auto
termination
proof (relation "measure length")
  show "wf (measure length)" by simp
next
  fix s :: string and x2 x y x2a xa ya
  assume "parseSimples s = Some x2" "(x, y) = x2" "y \<noteq> []"
    "parseAlts (tl y) = Some x2a" "(xa, ya) = x2a"
  then have "length y \<le> length s" "length ya < length (tl y)"
    using parseSimples_length [of s x y] parseAlts_shorter [of "tl y" xa ya] by simp_all
  then show "(ya, s) \<in> measure length" by simp
qed

declare parseItems.simps [simp del]

definition regexp_Compile :: "string \<Rightarrow> regexp option" where
  "regexp_Compile expr =
     (if expr \<noteq> [] \<and> hd expr = CHR ''^''
      then map_option (\<lambda>(items, endText). Regexp True items endText) (parseItems (tl expr))
      else map_option (\<lambda>(items, endText). Regexp False items endText) (parseItems expr))"

fun atomMatches :: "rxAtom \<Rightarrow> char \<Rightarrow> bool" where
  "atomMatches (Lit c) x \<longleftrightarrow> x = c"
| "atomMatches (NotOneOf cs) x \<longleftrightarrow> x \<notin> set cs"
| "atomMatches AnyCharNotNL x \<longleftrightarrow> x \<noteq> CHR 0x0A"

fun matchSimples :: "rxSimple list \<Rightarrow> string \<Rightarrow> bool" where
  "matchSimples [] s \<longleftrightarrow> s = []"
| "matchSimples (One a # r) [] \<longleftrightarrow> False"
| "matchSimples (One a # r) (x # xs) \<longleftrightarrow> atomMatches a x \<and> matchSimples r xs"
| "matchSimples (Star a # r) [] \<longleftrightarrow> matchSimples r []"
| "matchSimples (Star a # r) (x # xs) \<longleftrightarrow>
     matchSimples r (x # xs) \<or> (atomMatches a x \<and> matchSimples (Star a # r) xs)"

fun matchItems :: "rxItem list \<Rightarrow> string \<Rightarrow> bool" where
  "matchItems [] s \<longleftrightarrow> s = []"
| "matchItems (Simple (One a) # r) [] \<longleftrightarrow> False"
| "matchItems (Simple (One a) # r) (x # xs) \<longleftrightarrow> atomMatches a x \<and> matchItems r xs"
| "matchItems (Simple (Star a) # r) [] \<longleftrightarrow> matchItems r []"
| "matchItems (Simple (Star a) # r) (x # xs) \<longleftrightarrow>
     matchItems r (x # xs) \<or> (atomMatches a x \<and> matchItems (Simple (Star a) # r) xs)"
| "matchItems (Group alts # r) s \<longleftrightarrow>
     list_ex (\<lambda>alt. list_ex (\<lambda>i. matchSimples alt (take i s) \<and> matchItems r (drop i s))
                       [0..<Suc (length s)]) alts"

fun Regexp_MatchString :: "regexp \<Rightarrow> string \<Rightarrow> bool" where
  "Regexp_MatchString (Regexp beginText items endText) s \<longleftrightarrow>
     list_ex (\<lambda>i. (beginText \<longrightarrow> i = 0) \<and>
                  list_ex (\<lambda>j. (endText \<longrightarrow> j = length s) \<and>
                               matchItems items (take (j - i) (drop i s)))
                    [i..<Suc (length s)])
       [0..<Suc (length s)]"

definition regexp_MatchString :: "string \<Rightarrow> string \<Rightarrow> bool option" where
  "regexp_MatchString pattern s =
     map_option (\<lambda>re. Regexp_MatchString re s) (regexp_Compile pattern)"

text \<open>
  Modelled from the spec: \<^verbatim>\<open>routeapihelpers.GetDomainForHost\<close> is not in the file. The spec
  calls it the domain-parent extractor, from a hostname to its parent domain, empty when
  there is none: the part of the hostname after its first dot. It is used for concrete
  hostnames only; the statements take the helper as a parameter.
\<close>

definition GetDomainForHost :: "string \<Rightarrow> string" where
  "GetDomainForHost host =
     (if CHR ''.'' \<in> set host then tl (dropWhile (\<lambda>c. c \<noteq> CHR ''.'') host) else [])"

section \<open>Properties\<close>

subsection \<open>endpointsForAlias\<close>

lemma endpoints_loop_filter:
  "foldl (endpointsLoopStep p) acc es =
     acc @ filter (\<lambda>e. PortName e = p \<or> Port e = p) es"
  by (induction es arbitrary: acc) (simp_all add: endpointsLoopStep_def)

text \<open>
  Claim C10. With an empty \<open>PreferPort\<close> the endpoint table is returned as it is; otherwise
  the result is exactly the endpoints whose \<open>PortName\<close> or \<open>Port\<close> equals \<open>PreferPort\<close>, in
  their original order (the empty list when none matches).
\<close>

theorem endpointsForAlias_spec:
  "(PreferPort alias = [] \<longrightarrow> endpointsForAlias alias svc = EndpointTable svc) \<and>
   (PreferPort alias \<noteq> [] \<longrightarrow>
      endpointsForAlias alias svc =
        filter (\<lambda>e. PortName e = PreferPort alias \<or> Port e = PreferPort alias)
          (EndpointTable svc))"
  by (simp add: endpointsForAlias_def endpoints_loop_filter)

theorem endpointsForAlias_spec_witness:
  "endpointsForAlias
     (zeroServiceAliasConfig\<lparr>PreferPort := ''http''\<rparr>)
     \<lparr>EndpointTable =
        [\<lparr>ID = ''a'', IP = ''10.0.0.1'', Port = ''8080'', PortName = ''http''\<rparr>,
         \<lparr>ID = ''b'', IP = ''10.0.0.2'', Port = ''8443'', PortName = ''https''\<rparr>,
         \<lparr>ID = ''c'', IP = ''10.0.0.3'', Port = ''http'', PortName = ''web''\<rparr>]\<rparr>
   = [\<lparr>ID = ''a'', IP = ''10.0.0.1'', Port = ''8080'', PortName = ''http''\<rparr>,
      \<lparr>ID = ''c'', IP = ''10.0.0.3'', Port = ''http'', PortName = ''web''\<rparr>] \<and>
   endpointsForAlias zeroServiceAliasConfig
     \<lparr>EndpointTable =
        [\<lparr>ID = ''a'', IP = ''10.0.0.1'', Port = ''8080'', PortName = ''http''\<rparr>]\<rparr>
   = [\<lparr>ID = ''a'', IP = ''10.0.0.1'', Port = ''8080'', PortName = ''http''\<rparr>]"
  using endpointsForAlias_spec
          [of "zeroServiceAliasConfig\<lparr>PreferPort := ''http''\<rparr>"
              "\<lparr>EndpointTable =
                 [\<lparr>ID = ''a'', IP = ''10.0.0.1'', Port = ''8080'', PortName = ''http''\<rparr>,
                  \<lparr>ID = ''b'', IP = ''10.0.0.2'', Port = ''8443'', PortName = ''https''\<rparr>,
                  \<lparr>ID = ''c'', IP = ''10.0.0.3'', Port = ''http'', PortName = ''web''\<rparr>]\<rparr>"]
        endpointsForAlias_spec
          [of zeroServiceAliasConfig
              "\<lparr>EndpointTable =
                 [\<lparr>ID = ''a'', IP = ''10.0.0.1'', Port = ''8080'', PortName = ''http''\<rparr>]\<rparr>"]
  by (simp add: zeroServiceAliasConfig_def)

subsection \<open>getHTTPAliasesGroupedByHost\<close>

lemma groupedAlias_groupStep:
  "groupedAlias (groupStep r (k', a')) h k =
     (if TLSTermination a' \<noteq> TLSTerminationPassthrough \<and> Host a' = h \<and> k' = k
      then Some a' else groupedAlias r h k)"
  by (auto simp: groupedAlias_def groupStep_def split: option.splits)

lemma groupedAlias_foldl:
  "distinct (map fst xs) \<Longrightarrow>
   groupedAlias (foldl groupStep r xs) h k =
     (case map_of xs k of
        None \<Rightarrow> groupedAlias r h k
      | Some a \<Rightarrow> if TLSTermination a \<noteq> TLSTerminationPassthrough \<and> Host a = h
                  then Some a else groupedAlias r h k)"
proof (induction xs arbitrary: r)
  case Nil
  then show ?case by simp
next
  case (Cons x xs)
  obtain k' a' where x: "x = (k', a')" by (cases x)
  from Cons.prems have d: "distinct (map fst xs)" and nk: "k' \<notin> fst ` set xs"
    by (auto simp: x)
  show ?case
  proof (cases "k' = k")
    case True
    with nk have "map_of xs k = None" by (simp add: map_of_eq_None_iff)
    then show ?thesis
      using Cons.IH [OF d, of "groupStep r (k', a')"] True
      by (simp add: x groupedAlias_groupStep)
  next
    case False
    then show ?thesis
      using Cons.IH [OF d, of "groupStep r (k', a')"]
      by (simp add: x groupedAlias_groupStep split: option.splits)
  qed
qed

lemma groupedAlias_empty: "groupedAlias Map.empty h k = None"
  by (simp add: groupedAlias_def)

text \<open>
  Claim C8. For every alias table (distinct keys, any iteration order), the grouping holds
  alias \<open>a\<close> under key \<open>k\<close> in the bucket of host \<open>h\<close> exactly when \<open>(k, a)\<close> is an entry of the
  table, \<open>a\<close> is not a passthrough alias and \<open>h\<close> is the host of \<open>a\<close>. So no passthrough alias is
  in the result, and every other alias is there once: under its own key, in the bucket of its
  own host and in no other bucket.
\<close>

theorem getHTTPAliasesGroupedByHost_spec:
  assumes "distinct (map fst aliases)"
  shows "groupedAlias (getHTTPAliasesGroupedByHost aliases) h k = Some a \<longleftrightarrow>
           (k, a) \<in> set aliases \<and> TLSTermination a \<noteq> TLSTerminationPassthrough \<and> Host a = h"
proof -
  have m: "\<And>b. map_of aliases k = Some b \<longleftrightarrow> (k, b) \<in> set aliases"
    using assms by simp
  have g: "groupedAlias (getHTTPAliasesGroupedByHost aliases) h k =
             (case map_of aliases k of
                None \<Rightarrow> None
              | Some b \<Rightarrow> if TLSTermination b \<noteq> TLSTerminationPassthrough \<and> Host b = h
                          then Some b else None)"
    by (simp add: getHTTPAliasesGroupedByHost_def groupedAlias_foldl [OF assms]
                  groupedAlias_empty split: option.splits)
  show ?thesis
  proof (cases "map_of aliases k")
    case None
    then have "\<not> (k, a) \<in> set aliases" using m [of a] by simp
    with None show ?thesis by (simp add: g)
  next
    case (Some b)
    then have "(k, a) \<in> set aliases \<longleftrightarrow> a = b" using m [of a] by auto
    with Some show ?thesis by (auto simp: g)
  qed
qed

theorem getHTTPAliasesGroupedByHost_spec_witness:
  "distinct (map fst
      [(''r1'', zeroServiceAliasConfig\<lparr>Host := ''a.test'', TLSTermination := ''edge''\<rparr>),
       (''r2'', zeroServiceAliasConfig\<lparr>Host := ''a.test'', TLSTermination := ''passthrough''\<rparr>),
       (''r3'', zeroServiceAliasConfig\<lparr>Host := ''b.test''\<rparr>)]) \<and>
   groupedAlias (getHTTPAliasesGroupedByHost
      [(''r1'', zeroServiceAliasConfig\<lparr>Host := ''a.test'', TLSTermination := ''edge''\<rparr>),
       (''r2'', zeroServiceAliasConfig\<lparr>Host := ''a.test'', TLSTermination := ''passthrough''\<rparr>),
       (''r3'', zeroServiceAliasConfig\<lparr>Host := ''b.test''\<rparr>)]) ''a.test'' ''r1''
     = Some (zeroServiceAliasConfig\<lparr>Host := ''a.test'', TLSTermination := ''edge''\<rparr>) \<and>
   groupedAlias (getHTTPAliasesGroupedByHost
      [(''r1'', zeroServiceAliasConfig\<lparr>Host := ''a.test'', TLSTermination := ''edge''\<rparr>),
       (''r2'', zeroServiceAliasConfig\<lparr>Host := ''a.test'', TLSTermination := ''passthrough''\<rparr>),
       (''r3'', zeroServiceAliasConfig\<lparr>Host := ''b.test''\<rparr>)]) ''a.test'' ''r2''
     \<noteq> Some (zeroServiceAliasConfig\<lparr>Host := ''a.test'', TLSTermination := ''passthrough''\<rparr>)"
  using getHTTPAliasesGroupedByHost_spec
          [of "[(''r1'', zeroServiceAliasConfig\<lparr>Host := ''a.test'', TLSTermination := ''edge''\<rparr>),
                (''r2'', zeroServiceAliasConfig\<lparr>Host := ''a.test'', TLSTermination := ''passthrough''\<rparr>),
                (''r3'', zeroServiceAliasConfig\<lparr>Host := ''b.test''\<rparr>)]"
              "''a.test''" "''r1''"
              "zeroServiceAliasConfig\<lparr>Host := ''a.test'', TLSTermination := ''edge''\<rparr>"]
        getHTTPAliasesGroupedByHost_spec
          [of "[(''r1'', zeroServiceAliasConfig\<lparr>Host := ''a.test'', TLSTermination := ''edge''\<rparr>),
                (''r2'', zeroServiceAliasConfig\<lparr>Host := ''a.test'', TLSTermination := ''passthrough''\<rparr>),
                (''r3'', zeroServiceAliasConfig\<lparr>Host := ''b.test''\<rparr>)]"
              "''a.test''" "''r2''"
              "zeroServiceAliasConfig\<lparr>Host := ''a.test'', TLSTermination := ''passthrough''\<rparr>"]
  by (simp add: zeroServiceAliasConfig_def TLSTerminationPassthrough_def)

subsection \<open>getPrimaryAliasKey\<close>

lemma find_desc_greatest:
  "sorted_wrt (\<lambda>x y. y \<le> x) xs \<Longrightarrow> List.find P xs = Some x \<Longrightarrow>
     P x \<and> x \<in> set xs \<and> (\<forall>y \<in> set xs. P y \<longrightarrow> y \<le> (x::'a::linorder))"
  by (induction xs) (auto split: if_splits)

lemma sorted_desc_sortReverseStrings: "sorted_wrt (\<lambda>x y. y \<le> x) (sortReverseStrings xs)"
  by (simp add: sortReverseStrings_def sorted_wrt_rev)

lemma set_sortReverseStrings: "set (sortReverseStrings xs) = set xs"
  by (simp add: sortReverseStrings_def)


lemma isTLSTerminated_zero: "\<not> isTLSTerminated zeroServiceAliasConfig"
  by (simp add: isTLSTerminated_def zeroServiceAliasConfig_def TLSTerminationEdge_def
                TLSTerminationReencrypt_def)

lemma terminated_lookup_iff:
  assumes "distinct (map fst aliases)"
  shows "isTLSTerminated (aliasLookup aliases k) \<longleftrightarrow> k \<in> terminatedKeys aliases"
proof (cases "map_of aliases k")
  case None
  then have "k \<notin> fst ` set aliases" by (simp add: map_of_eq_None_iff)
  then have "k \<notin> terminatedKeys aliases" by (force simp: terminatedKeys_def)
  with None show ?thesis by (simp add: aliasLookup_def isTLSTerminated_zero)
next
  case (Some a)
  have m: "\<And>b. (k, b) \<in> set aliases \<Longrightarrow> map_of aliases k = Some b"
    using assms by simp
  have ka: "(k, a) \<in> set aliases" using Some by (rule map_of_SomeD)
  have "(k, b) \<in> set aliases \<longleftrightarrow> b = a" for b
  proof
    assume "(k, b) \<in> set aliases"
    then have "map_of aliases k = Some b" by (rule m)
    with Some show "b = a" by simp
  next
    assume "b = a"
    with ka show "(k, b) \<in> set aliases" by simp
  qed
  then have "k \<in> terminatedKeys aliases \<longleftrightarrow> isTLSTerminated a"
    by (simp add: terminatedKeys_def)
  with Some show ?thesis by (simp add: aliasLookup_def)
qed

lemma terminatedKeys_Nil: "terminatedKeys [] = {}"
  by (simp add: terminatedKeys_def)

lemma terminatedKeys_Cons:
  "terminatedKeys ((k, a) # xs) =
     (if isTLSTerminated a then insert k (terminatedKeys xs) else terminatedKeys xs)"
  by (auto simp: terminatedKeys_def)

lemma terminatedKeys_subset: "terminatedKeys aliases \<subseteq> fst ` set aliases"
  by (force simp: terminatedKeys_def)

lemma finite_terminatedKeys: "finite (terminatedKeys aliases)"
  by (rule finite_subset [OF terminatedKeys_subset]) simp

lemma primary_keys_set:
  "aliases \<noteq> [] \<Longrightarrow>
   set (sortReverseStrings (replicate (length aliases) [] @ map fst aliases)) =
     insert [] (fst ` set aliases)"
  by (auto simp: set_sortReverseStrings)

lemma getPrimaryAliasKey_many:
  assumes d: "distinct (map fst aliases)" and n: "2 \<le> length aliases"
  shows "getPrimaryAliasKey aliases =
           Inr (if terminatedKeys aliases \<noteq> {} then Max (terminatedKeys aliases)
                else Max (fst ` set aliases))"
proof -
  define keys where
    "keys = sortReverseStrings (replicate (length aliases) [] @ map fst aliases)"
  let ?P = "\<lambda>k. isTLSTerminated (aliasLookup aliases k)"
  from n have ne: "aliases \<noteq> []" by auto
  have ks: "set keys = insert [] (fst ` set aliases)"
    unfolding keys_def by (rule primary_keys_set [OF ne])
  have srt: "sorted_wrt (\<lambda>x y. y \<le> x) keys"
    unfolding keys_def by (rule sorted_desc_sortReverseStrings)
  have unf: "getPrimaryAliasKey aliases =
               (case List.find ?P keys of
                  Some k \<Rightarrow> Inr k
                | None \<Rightarrow> (case keys of [] \<Rightarrow> Inl IndexOutOfRange | k0 # _ \<Rightarrow> Inr k0))"
    unfolding keys_def using n ne by (simp add: getPrimaryAliasKey_def Let_def)
  show ?thesis
  proof (cases "terminatedKeys aliases = {}")
    case True
    then have "\<forall>k \<in> set keys. \<not> ?P k"
      by (simp add: terminated_lookup_iff [OF d])
    then have fnd: "List.find ?P keys = None" by (simp add: find_None_iff)
    from ks obtain k0 rest where kc: "keys = k0 # rest" by (cases keys) auto
    from srt kc have ub: "\<forall>y \<in> set keys. y \<le> k0" by auto
    have "k0 \<in> fst ` set aliases"
    proof (cases "k0 = []")
      case False
      then show ?thesis using ks kc by auto
    next
      case True2: True
      from ne obtain y where y: "y \<in> fst ` set aliases" by (cases aliases) auto
      then have "y \<le> []" using ub ks True2 by auto
      then have "y = []" by simp
      with y True2 show ?thesis by simp
    qed
    moreover have "\<And>y. y \<in> fst ` set aliases \<Longrightarrow> y \<le> k0" using ub ks by auto
    ultimately have "Max (fst ` set aliases) = k0" by (intro Max_eqI) auto
    with True fnd kc show ?thesis by (simp add: unf)
  next
    case False
    then obtain t where t: "t \<in> terminatedKeys aliases" by auto
    then have "t \<in> set keys" using terminatedKeys_subset [of aliases] ks by auto
    with t have "\<exists>k \<in> set keys. ?P k" by (auto simp: terminated_lookup_iff [OF d])
    then obtain x where fnd: "List.find ?P keys = Some x"
      by (cases "List.find ?P keys") (auto simp: find_None_iff)
    from find_desc_greatest [OF srt fnd]
    have px: "?P x" and ub: "\<forall>y \<in> set keys. ?P y \<longrightarrow> y \<le> x" by auto
    from px have xin: "x \<in> terminatedKeys aliases" by (simp add: terminated_lookup_iff [OF d])
    have "\<And>y. y \<in> terminatedKeys aliases \<Longrightarrow> y \<le> x"
    proof -
      fix y assume y: "y \<in> terminatedKeys aliases"
      then have "y \<in> set keys" using terminatedKeys_subset [of aliases] ks by auto
      with y ub show "y \<le> x" by (simp add: terminated_lookup_iff [OF d])
    qed
    with xin have "Max (terminatedKeys aliases) = x"
      by (intro Max_eqI) (auto simp: finite_terminatedKeys)
    with False fnd show ?thesis by (simp add: unf)
  qed
qed

text \<open>
  Claim C2. For a group of aliases (distinct keys, any iteration order), the primary key is the
  empty string for the empty group and the only key for a group of one; for two or more
  aliases it is the greatest key among the aliases with edge or reencrypt termination, and the
  greatest key of all when no alias has such a termination. The function never panics.
\<close>

theorem getPrimaryAliasKey_spec:
  assumes "distinct (map fst aliases)"
  shows "(aliases = [] \<longrightarrow> getPrimaryAliasKey aliases = Inr []) \<and>
         (\<forall>k a. aliases = [(k, a)] \<longrightarrow> getPrimaryAliasKey aliases = Inr k) \<and>
         (2 \<le> length aliases \<and> terminatedKeys aliases \<noteq> {} \<longrightarrow>
            getPrimaryAliasKey aliases = Inr (Max (terminatedKeys aliases))) \<and>
         (2 \<le> length aliases \<and> terminatedKeys aliases = {} \<longrightarrow>
            getPrimaryAliasKey aliases = Inr (Max (fst ` set aliases)))"
proof (intro conjI impI allI)
  assume "aliases = []"
  then show "getPrimaryAliasKey aliases = Inr []" by (simp add: getPrimaryAliasKey_def)
next
  fix k a assume "aliases = [(k, a)]"
  then show "getPrimaryAliasKey aliases = Inr k"
    by (simp add: getPrimaryAliasKey_def firstRangeKey_def)
next
  assume "2 \<le> length aliases \<and> terminatedKeys aliases \<noteq> {}"
  then show "getPrimaryAliasKey aliases = Inr (Max (terminatedKeys aliases))"
    using getPrimaryAliasKey_many [OF assms] by simp
next
  assume "2 \<le> length aliases \<and> terminatedKeys aliases = {}"
  then show "getPrimaryAliasKey aliases = Inr (Max (fst ` set aliases))"
    using getPrimaryAliasKey_many [OF assms] by simp
qed

theorem getPrimaryAliasKey_spec_witness:
  "distinct (map fst
      [(''b'', zeroServiceAliasConfig\<lparr>TLSTermination := TLSTerminationPassthrough\<rparr>),
       (''a'', zeroServiceAliasConfig\<lparr>TLSTermination := TLSTerminationEdge\<rparr>)]) \<and>
   getPrimaryAliasKey
      [(''b'', zeroServiceAliasConfig\<lparr>TLSTermination := TLSTerminationPassthrough\<rparr>),
       (''a'', zeroServiceAliasConfig\<lparr>TLSTermination := TLSTerminationEdge\<rparr>)] = Inr ''a'' \<and>
   distinct (map fst
      [(''b'', zeroServiceAliasConfig\<lparr>TLSTermination := TLSTerminationPassthrough\<rparr>),
       (''a'', zeroServiceAliasConfig\<lparr>TLSTermination := TLSTerminationPassthrough\<rparr>)]) \<and>
   getPrimaryAliasKey
      [(''b'', zeroServiceAliasConfig\<lparr>TLSTermination := TLSTerminationPassthrough\<rparr>),
       (''a'', zeroServiceAliasConfig\<lparr>TLSTermination := TLSTerminationPassthrough\<rparr>)] = Inr ''b''"
proof -
  let ?A = "[(''b'', zeroServiceAliasConfig\<lparr>TLSTermination := TLSTerminationPassthrough\<rparr>),
             (''a'', zeroServiceAliasConfig\<lparr>TLSTermination := TLSTerminationEdge\<rparr>)]"
  let ?B = "[(''b'', zeroServiceAliasConfig\<lparr>TLSTermination := TLSTerminationPassthrough\<rparr>),
             (''a'', zeroServiceAliasConfig\<lparr>TLSTermination := TLSTerminationPassthrough\<rparr>)]"
  have dA: "distinct (map fst ?A)" and dB: "distinct (map fst ?B)" by simp_all
  have tA: "terminatedKeys ?A = {''a''}"
    by (simp add: terminatedKeys_Nil terminatedKeys_Cons isTLSTerminated_def
          TLSTerminationPassthrough_def TLSTerminationEdge_def TLSTerminationReencrypt_def)
  have tB: "terminatedKeys ?B = {}"
    by (simp add: terminatedKeys_Nil terminatedKeys_Cons isTLSTerminated_def
          TLSTerminationPassthrough_def TLSTerminationEdge_def TLSTerminationReencrypt_def)
  have mB: "Max (fst ` set ?B) = ''b''" by (simp add: max_def)
  from getPrimaryAliasKey_spec [OF dA] tA have "getPrimaryAliasKey ?A = Inr ''a''" by simp
  moreover from getPrimaryAliasKey_spec [OF dB] tB mB have "getPrimaryAliasKey ?B = Inr ''b''"
    by simp
  ultimately show ?thesis using dA dB by simp
qed

subsection \<open>cachedRegexpCompile and firstMatch\<close>





text \<open>
  Claim C9. For a valid pattern and any state of the store, a call of \<open>cachedRegexpCompile\<close>
  succeeds, and so does a second call on the state the first one leaves; both return the same
  compiled expression (hence the same matching behaviour), which is the stored entry. The
  second call changes nothing: it neither compiles nor writes, and the first call compiles and
  writes once when the pattern was not stored and not at all when it was. A call that fails
  leaves the store as it was.
\<close>

theorem cachedRegexpCompile_idempotent:
  assumes "regexpCompile pattern = Inr re0"
  shows "fst (cachedRegexpCompile regexpCompile c0 pattern) =
           Inr (case store c0 pattern of None \<Rightarrow> re0 | Some v \<Rightarrow> v) \<and>
         fst (cachedRegexpCompile regexpCompile
                (snd (cachedRegexpCompile regexpCompile c0 pattern)) pattern) =
           fst (cachedRegexpCompile regexpCompile c0 pattern) \<and>
         snd (cachedRegexpCompile regexpCompile
                (snd (cachedRegexpCompile regexpCompile c0 pattern)) pattern) =
           snd (cachedRegexpCompile regexpCompile c0 pattern) \<and>
         store (snd (cachedRegexpCompile regexpCompile c0 pattern)) pattern =
           Some (case store c0 pattern of None \<Rightarrow> re0 | Some v \<Rightarrow> v) \<and>
         calls (snd (cachedRegexpCompile regexpCompile c0 pattern)) =
           calls c0 @ (case store c0 pattern of
                         None \<Rightarrow> [RegexpCompile pattern, SyncMapStore pattern]
                       | Some v \<Rightarrow> []) \<and>
         (\<forall>q e. fst (cachedRegexpCompile regexpCompile c0 q) = Inl e \<longrightarrow>
                  store (snd (cachedRegexpCompile regexpCompile c0 q)) = store c0)"
proof (intro conjI allI impI)
  show "fst (cachedRegexpCompile regexpCompile c0 pattern) =
          Inr (case store c0 pattern of None \<Rightarrow> re0 | Some v \<Rightarrow> v)"
    using assms by (simp add: cachedRegexpCompile_def Let_def split: option.splits)
  show "fst (cachedRegexpCompile regexpCompile
               (snd (cachedRegexpCompile regexpCompile c0 pattern)) pattern) =
          fst (cachedRegexpCompile regexpCompile c0 pattern)"
    using assms by (simp add: cachedRegexpCompile_def Let_def split: option.splits)
  show "snd (cachedRegexpCompile regexpCompile
               (snd (cachedRegexpCompile regexpCompile c0 pattern)) pattern) =
          snd (cachedRegexpCompile regexpCompile c0 pattern)"
    using assms by (simp add: cachedRegexpCompile_def Let_def split: option.splits)
  show "store (snd (cachedRegexpCompile regexpCompile c0 pattern)) pattern =
          Some (case store c0 pattern of None \<Rightarrow> re0 | Some v \<Rightarrow> v)"
    using assms by (simp add: cachedRegexpCompile_def Let_def split: option.splits)
  show "calls (snd (cachedRegexpCompile regexpCompile c0 pattern)) =
          calls c0 @ (case store c0 pattern of
                        None \<Rightarrow> [RegexpCompile pattern, SyncMapStore pattern]
                      | Some v \<Rightarrow> [])"
    using assms by (simp add: cachedRegexpCompile_def Let_def split: option.splits)
next
  fix q e
  assume "fst (cachedRegexpCompile regexpCompile c0 q) = Inl e"
  then show "store (snd (cachedRegexpCompile regexpCompile c0 q)) = store c0"
    by (auto simp: cachedRegexpCompile_def Let_def split: option.splits sum.splits)
qed

theorem cachedRegexpCompile_idempotent_witness:
  "(\<lambda>p. if p = ''a+'' then Inr (1::nat) else Inl ''missing argument'') ''a+'' = Inr 1 \<and>
   cachedRegexpCompile (\<lambda>p. if p = ''a+'' then Inr (1::nat) else Inl ''missing argument'')
     emptyRegexpCache ''a+'' =
     (Inr 1, \<lparr>store = [''a+'' \<mapsto> 1],
              calls = [RegexpCompile ''a+'', SyncMapStore ''a+'']\<rparr>) \<and>
   cachedRegexpCompile (\<lambda>p. if p = ''a+'' then Inr (1::nat) else Inl ''missing argument'')
     \<lparr>store = [''a+'' \<mapsto> 1], calls = [RegexpCompile ''a+'', SyncMapStore ''a+'']\<rparr> ''a+'' =
     (Inr 1, \<lparr>store = [''a+'' \<mapsto> 1],
              calls = [RegexpCompile ''a+'', SyncMapStore ''a+'']\<rparr>) \<and>
   cachedRegexpCompile (\<lambda>p. if p = ''a+'' then Inr (1::nat) else Inl ''missing argument'')
     emptyRegexpCache ''+'' =
     (Inl ''missing argument'', \<lparr>store = Map.empty, calls = [RegexpCompile ''+'']\<rparr>)"
  using cachedRegexpCompile_idempotent
          [of "\<lambda>p. if p = ''a+'' then Inr (1::nat) else Inl ''missing argument''" "''a+''" 1
              emptyRegexpCache]
  by (simp add: cachedRegexpCompile_def emptyRegexpCache_def)




subsection \<open>clipHAProxyTimeoutValue\<close>

text \<open>
  Claim C3. \<open>clipHAProxyTimeoutValue\<close> returns the empty input as it is, without parsing.
  For a non-empty input it returns the input when the parse succeeds with a duration of at
  most the maximum; the maximum literal when the parse reports an overflow or gives a longer
  duration; the empty string when the parse reports a syntax error; the default literal for
  any other error. The result is a string in every case: no error reaches the caller.
\<close>

theorem clipHAProxyTimeoutValue_spec:
  "(val = [] \<longrightarrow>
      clipHAProxyTimeoutValue ParseDuration maxLit defaultLit maxDuration val = val) \<and>
   (val \<noteq> [] \<and> ParseDuration val = (d, None) \<and> sint d \<le> sint maxDuration \<longrightarrow>
      clipHAProxyTimeoutValue ParseDuration maxLit defaultLit maxDuration val = val) \<and>
   (val \<noteq> [] \<and> (ParseDuration val = (d, Some OverflowError) \<or>
                  ParseDuration val = (d, None) \<and> sint maxDuration < sint d) \<longrightarrow>
      clipHAProxyTimeoutValue ParseDuration maxLit defaultLit maxDuration val = maxLit) \<and>
   (val \<noteq> [] \<and> ParseDuration val = (d, Some SyntaxError) \<longrightarrow>
      clipHAProxyTimeoutValue ParseDuration maxLit defaultLit maxDuration val = []) \<and>
   (val \<noteq> [] \<and> ParseDuration val = (d, Some OtherError) \<longrightarrow>
      clipHAProxyTimeoutValue ParseDuration maxLit defaultLit maxDuration val = defaultLit)"
  by (auto simp: clipHAProxyTimeoutValue_def)

theorem clipHAProxyTimeoutValue_spec_witness:
  "clipHAProxyTimeoutValue
     (\<lambda>s. if s = ''5s'' then (5000000000, None)
          else if s = ''1000h'' then (3600000000000000, None)
          else if s = ''9999999999h'' then (0, Some OverflowError)
          else (0, Some SyntaxError))
     ''2147483647ms'' ''5s'' 2147483647000000 [] = [] \<and>
   clipHAProxyTimeoutValue
     (\<lambda>s. if s = ''5s'' then (5000000000, None)
          else if s = ''1000h'' then (3600000000000000, None)
          else if s = ''9999999999h'' then (0, Some OverflowError)
          else (0, Some SyntaxError))
     ''2147483647ms'' ''5s'' 2147483647000000 ''5s'' = ''5s'' \<and>
   clipHAProxyTimeoutValue
     (\<lambda>s. if s = ''5s'' then (5000000000, None)
          else if s = ''1000h'' then (3600000000000000, None)
          else if s = ''9999999999h'' then (0, Some OverflowError)
          else (0, Some SyntaxError))
     ''2147483647ms'' ''5s'' 2147483647000000 ''1000h'' = ''2147483647ms'' \<and>
   clipHAProxyTimeoutValue
     (\<lambda>s. if s = ''5s'' then (5000000000, None)
          else if s = ''1000h'' then (3600000000000000, None)
          else if s = ''9999999999h'' then (0, Some OverflowError)
          else (0, Some SyntaxError))
     ''2147483647ms'' ''5s'' 2147483647000000 ''9999999999h'' = ''2147483647ms'' \<and>
   clipHAProxyTimeoutValue
     (\<lambda>s. if s = ''5s'' then (5000000000, None)
          else if s = ''1000h'' then (3600000000000000, None)
          else if s = ''9999999999h'' then (0, Some OverflowError)
          else (0, Some SyntaxError))
     ''2147483647ms'' ''5s'' 2147483647000000 ''5 s'' = []"
proof -
  let ?P = "\<lambda>s. if s = ''5s'' then (5000000000 :: 64 word, None)
          else if s = ''1000h'' then (3600000000000000, None)
          else if s = ''9999999999h'' then (0, Some OverflowError)
          else (0, Some SyntaxError)"
  note spec = clipHAProxyTimeoutValue_spec
                [where ParseDuration = ?P and maxLit = "''2147483647ms''" and defaultLit = "''5s''"
                   and maxDuration = 2147483647000000]
  have e: "clipHAProxyTimeoutValue ?P ''2147483647ms'' ''5s'' 2147483647000000 [] = []"
    using spec [of "[]"] by simp
  have a: "clipHAProxyTimeoutValue ?P ''2147483647ms'' ''5s'' 2147483647000000 ''5s'' = ''5s''"
    using spec [of "''5s''" 5000000000] by simp
  have b: "clipHAProxyTimeoutValue ?P ''2147483647ms'' ''5s'' 2147483647000000 ''1000h''
             = ''2147483647ms''"
    using spec [of "''1000h''" 3600000000000000] by simp
  have c: "clipHAProxyTimeoutValue ?P ''2147483647ms'' ''5s'' 2147483647000000 ''9999999999h''
             = ''2147483647ms''"
    using spec [of "''9999999999h''" 0] by simp
  have d: "clipHAProxyTimeoutValue ?P ''2147483647ms'' ''5s'' 2147483647000000 ''5 s'' = []"
    using spec [of "''5 s''" 0] by simp
  from e a b c d show ?thesis by simp
qed

subsection \<open>generateHAProxyCertConfigMap\<close>

lemma certConfigMap_loop:
  "foldl (certConfigMapStep g e j c td) acc xs =
     acc @ List.map_filter (certConfigMapLine g e j c td) xs"
  by (induction xs arbitrary: acc)
     (simp_all add: certConfigMapStep_def List.map_filter_simps split: option.splits)

lemma set_generateHAProxyCertConfigMap:
  "set (generateHAProxyCertConfigMap g e j c td) =
     {line. \<exists>kcfg \<in> set (State td). certConfigMapLine g e j c td kcfg = Some line}"
  by (force simp: generateHAProxyCertConfigMap_def certConfigMap_loop set_sortReverseStrings
        List.map_filter_def)

text \<open>
  Claim C5. The lines that \<open>generateHAProxyCertConfigMap\<close> returns are in descending
  lexicographic order, for every input and all collaborators.
\<close>

theorem generateHAProxyCertConfigMap_sorted:
  "sorted_wrt (\<lambda>x y. y \<le> x)
     (generateHAProxyCertConfigMap generateCertKey GenerateMapEntry path_Join certDir td)"
  unfolding generateHAProxyCertConfigMap_def by (rule sorted_desc_sortReverseStrings)

text \<open>
  Claim C1. For every alias of the state for which the encoder gives an entry, a line is
  emitted and is in the result. It is the path, the hint \<^verbatim>\<open>[alpn h2,http/1.1]\<close> and the entry's
  value exactly when \<open>DisableHTTP2\<close> is false and the count of the certificate's contents in
  \<open>CertificateIndex\<close> is at most 1; it is the path and the value, without the hint, exactly when
  \<open>DisableHTTP2\<close> is set or the count is more than 1. The two cases of the claim are evaluated
  in the witness: two aliases with one certificate content of count 2 give two lines without
  the hint, two aliases with contents of count 1 each give two lines with it.
\<close>

theorem generateHAProxyCertConfigMap_alpn:
  assumes "(k, cfg) \<in> set (State td)"
    and "GenerateMapEntry certConfigMap
           (backendConfig k cfg (snd (aliasCertificate generateCertKey cfg))) = Some entry"
  shows "\<exists>line.
           certConfigMapLine generateCertKey GenerateMapEntry path_Join certDir td (k, cfg)
             = Some line \<and>
           line \<in> set (generateHAProxyCertConfigMap generateCertKey GenerateMapEntry path_Join
                          certDir td) \<and>
           (line = path_Join [WorkingDir td, certDir, Key entry] @ '' [alpn h2,http/1.1] '' @
                     Value entry
              \<longleftrightarrow> \<not> DisableHTTP2 td \<and>
                  certificateIndexCount td
                    (Contents (fst (aliasCertificate generateCertKey cfg))) \<le> 1) \<and>
           (line = path_Join [WorkingDir td, certDir, Key entry] @ '' '' @ Value entry
              \<longleftrightarrow> DisableHTTP2 td \<or>
                  certificateIndexCount td
                    (Contents (fst (aliasCertificate generateCertKey cfg))) > 1)"
proof -
  let ?fq = "path_Join [WorkingDir td, certDir, Key entry]"
  let ?n = "certificateIndexCount td (Contents (fst (aliasCertificate generateCertKey cfg)))"
  let ?line = "if DisableHTTP2 td \<or> ?n > 1 then ?fq @ '' '' @ Value entry
               else ?fq @ '' [alpn h2,http/1.1] '' @ Value entry"
  have l: "certConfigMapLine generateCertKey GenerateMapEntry path_Join certDir td (k, cfg)
             = Some ?line"
    using assms(2)
    by (cases "aliasCertificate generateCertKey cfg")
       (simp add: certConfigMapLine_def Let_def)
  have ne: "?fq @ '' [alpn h2,http/1.1] '' @ Value entry \<noteq> ?fq @ '' '' @ Value entry"
    by simp
  have m: "?line \<in> set (generateHAProxyCertConfigMap generateCertKey GenerateMapEntry path_Join
                           certDir td)"
    unfolding set_generateHAProxyCertConfigMap using assms(1) l by blast
  show ?thesis
    using l m ne by (intro exI [of _ ?line]) auto
qed

theorem generateHAProxyCertConfigMap_alpn_witness:
  "generateHAProxyCertConfigMap
      (\<lambda>cfg. Host cfg)
      (\<lambda>name bc. if name = certConfigMap \<and> HasCertificate bc then Some \<lparr>Key = Name bc @ ''.pem'', Value = BackendHost bc\<rparr> else None)
      (\<lambda>elems. strings_Join elems ''/'') ''certs''
      \<lparr>WorkingDir = ''/var/lib/haproxy'', State = [(''r1'', zeroServiceAliasConfig\<lparr>Host := ''a.test'', TLSTermination := ''edge'', Certificates := [''a.test'' \<mapsto> \<lparr>Contents = ''PEM1''\<rparr>]\<rparr>), (''r2'', zeroServiceAliasConfig\<lparr>Host := ''b.test'', TLSTermination := ''edge'', Certificates := [''b.test'' \<mapsto> \<lparr>Contents = ''PEM1''\<rparr>]\<rparr>)], CertificateIndex = [''PEM1'' \<mapsto> 2], DisableHTTP2 = False\<rparr>
    = [''/var/lib/haproxy/certs/r2.pem b.test'', ''/var/lib/haproxy/certs/r1.pem a.test''] \<and>
   generateHAProxyCertConfigMap
      (\<lambda>cfg. Host cfg)
      (\<lambda>name bc. if name = certConfigMap \<and> HasCertificate bc then Some \<lparr>Key = Name bc @ ''.pem'', Value = BackendHost bc\<rparr> else None)
      (\<lambda>elems. strings_Join elems ''/'') ''certs''
      \<lparr>WorkingDir = ''/var/lib/haproxy'', State = [(''r1'', zeroServiceAliasConfig\<lparr>Host := ''a.test'', TLSTermination := ''edge'', Certificates := [''a.test'' \<mapsto> \<lparr>Contents = ''PEM1''\<rparr>]\<rparr>), (''r2'', zeroServiceAliasConfig\<lparr>Host := ''b.test'', TLSTermination := ''edge'', Certificates := [''b.test'' \<mapsto> \<lparr>Contents = ''PEM2''\<rparr>]\<rparr>)], CertificateIndex = [''PEM1'' \<mapsto> 1, ''PEM2'' \<mapsto> 1], DisableHTTP2 = False\<rparr>
    = [''/var/lib/haproxy/certs/r2.pem [alpn h2,http/1.1] b.test'',
       ''/var/lib/haproxy/certs/r1.pem [alpn h2,http/1.1] a.test'']"
proof -
  let ?g = "(\<lambda>cfg. Host cfg)"
  let ?e = "(\<lambda>name bc. if name = certConfigMap \<and> HasCertificate bc then Some \<lparr>Key = Name bc @ ''.pem'', Value = BackendHost bc\<rparr> else None)"
  let ?j = "(\<lambda>elems. strings_Join elems ''/'')"
  let ?a1 = "zeroServiceAliasConfig\<lparr>Host := ''a.test'', TLSTermination := ''edge'', Certificates := [''a.test'' \<mapsto> \<lparr>Contents = ''PEM1''\<rparr>]\<rparr>"
  let ?a2 = "zeroServiceAliasConfig\<lparr>Host := ''b.test'', TLSTermination := ''edge'', Certificates := [''b.test'' \<mapsto> \<lparr>Contents = ''PEM1''\<rparr>]\<rparr>"
  let ?b2 = "zeroServiceAliasConfig\<lparr>Host := ''b.test'', TLSTermination := ''edge'', Certificates := [''b.test'' \<mapsto> \<lparr>Contents = ''PEM2''\<rparr>]\<rparr>"
  let ?td1 = "\<lparr>WorkingDir = ''/var/lib/haproxy'', State = [(''r1'', ?a1), (''r2'', ?a2)],
               CertificateIndex = [''PEM1'' \<mapsto> 2], DisableHTTP2 = False\<rparr>"
  let ?td2 = "\<lparr>WorkingDir = ''/var/lib/haproxy'', State = [(''r1'', ?a1), (''r2'', ?b2)],
               CertificateIndex = [''PEM1'' \<mapsto> 1, ''PEM2'' \<mapsto> 1], DisableHTTP2 = False\<rparr>"
  have in1: "(''r1'', ?a1) \<in> set (State ?td1)" by simp
  have e1: "?e certConfigMap (backendConfig ''r1'' ?a1 (snd (aliasCertificate ?g ?a1)))
              = Some \<lparr>Key = ''r1.pem'', Value = ''a.test''\<rparr>"
    by (simp add: aliasCertificate_def backendConfig_def zeroServiceAliasConfig_def)
  note spec = generateHAProxyCertConfigMap_alpn
                [where k = "''r1''" and cfg = ?a1 and td = ?td1 and generateCertKey = ?g
                   and GenerateMapEntry = ?e and path_Join = ?j and certDir = "''certs''"
                   and entry = "\<lparr>Key = ''r1.pem'', Value = ''a.test''\<rparr>", OF in1 e1]
  have g1: "generateHAProxyCertConfigMap ?g ?e ?j ''certs'' ?td1
              = [''/var/lib/haproxy/certs/r2.pem b.test'', ''/var/lib/haproxy/certs/r1.pem a.test'']"
    by (simp add: generateHAProxyCertConfigMap_def certConfigMapStep_def certConfigMapLine_def
          aliasCertificate_def backendConfig_def zeroServiceAliasConfig_def
          certificateIndexCount_def sortReverseStrings_def)
  have g2: "generateHAProxyCertConfigMap ?g ?e ?j ''certs'' ?td2
              = [''/var/lib/haproxy/certs/r2.pem [alpn h2,http/1.1] b.test'',
                 ''/var/lib/haproxy/certs/r1.pem [alpn h2,http/1.1] a.test'']"
    by (simp add: generateHAProxyCertConfigMap_def certConfigMapStep_def certConfigMapLine_def
          aliasCertificate_def backendConfig_def zeroServiceAliasConfig_def
          certificateIndexCount_def sortReverseStrings_def)
  from spec have "certificateIndexCount ?td1 (Contents (fst (aliasCertificate ?g ?a1))) > 1"
    by (simp add: certificateIndexCount_def aliasCertificate_def zeroServiceAliasConfig_def)
  with g1 g2 show ?thesis by simp
qed

subsection \<open>parseIPList\<close>

lemma parseIPList_loop:
  "foldl (parseIPListStep ParseIP ParseCIDR) acc ips =
     acc @ filter (validIPOrCIDR ParseIP ParseCIDR) ips"
  by (induction ips arbitrary: acc)
     (auto simp: parseIPListStep_def validIPOrCIDR_def split: sum.splits)

lemma length_trimLeftSpace: "length (trimLeftSpace s) \<le> length s"
proof (induction s rule: trimLeftSpace.induct)
  case (1 s)
  show ?case
  proof (cases "spaceWidth s = 0")
    case True
    then show ?thesis by (simp add: trimLeftSpace.simps)
  next
    case False
    with "1" have "length (trimLeftSpace (drop (spaceWidth s) s)) \<le> length s - spaceWidth s"
      by simp
    with False show ?thesis by (subst trimLeftSpace.simps) simp
  qed
qed

lemma length_trimRightSpace: "length (trimRightSpace s) \<le> length s"
proof (induction s rule: trimRightSpace.induct)
  case (1 s)
  show ?case
  proof (cases "trailingSpaceWidth s = 0")
    case True
    then show ?thesis by (simp add: trimRightSpace.simps)
  next
    case False
    with "1" have "length (trimRightSpace (take (length s - trailingSpaceWidth s) s))
                     \<le> length s - trailingSpaceWidth s"
      by simp
    with False show ?thesis by (subst trimRightSpace.simps) simp
  qed
qed

lemma trimLeftSpace_id_iff: "trimLeftSpace s = s \<longleftrightarrow> spaceWidth s = 0"
proof
  assume eq: "trimLeftSpace s = s"
  show "spaceWidth s = 0"
  proof (rule ccontr)
    assume pos: "spaceWidth s \<noteq> 0"
    then have "trimLeftSpace s = trimLeftSpace (drop (spaceWidth s) s)"
      by (subst trimLeftSpace.simps) simp
    then have "length (trimLeftSpace s) \<le> length s - spaceWidth s"
      using length_trimLeftSpace [of "drop (spaceWidth s) s"] by simp
    moreover have "length s - spaceWidth s < length s"
      using pos by (simp add: spaceWidth_drop_less)
    ultimately show False using eq by simp
  qed
next
  assume "spaceWidth s = 0"
  then show "trimLeftSpace s = s" by (simp add: trimLeftSpace.simps)
qed

lemma trimRightSpace_id_iff: "trimRightSpace s = s \<longleftrightarrow> trailingSpaceWidth s = 0"
proof
  assume eq: "trimRightSpace s = s"
  show "trailingSpaceWidth s = 0"
  proof (rule ccontr)
    assume pos: "trailingSpaceWidth s \<noteq> 0"
    then have "trimRightSpace s = trimRightSpace (take (length s - trailingSpaceWidth s) s)"
      by (subst trimRightSpace.simps) simp
    then have "length (trimRightSpace s) \<le> length s - trailingSpaceWidth s"
      using length_trimRightSpace [of "take (length s - trailingSpaceWidth s) s"] by simp
    moreover have "length s - trailingSpaceWidth s < length s"
      using pos by (simp add: trailingSpaceWidth_take_less)
    ultimately show False using eq by simp
  qed
next
  assume "trailingSpaceWidth s = 0"
  then show "trimRightSpace s = s" by (simp add: trimRightSpace.simps)
qed

lemma strings_TrimSpace_id_iff:
  "strings_TrimSpace s = s \<longleftrightarrow> spaceWidth s = 0 \<and> trailingSpaceWidth s = 0"
proof
  assume eq: "strings_TrimSpace s = s"
  have "length (trimRightSpace (trimLeftSpace s)) \<le> length (trimLeftSpace s)"
    by (rule length_trimRightSpace)
  with eq have "length s \<le> length (trimLeftSpace s)" by (simp add: strings_TrimSpace_def)
  have l: "spaceWidth s = 0"
  proof (rule ccontr)
    assume pos: "spaceWidth s \<noteq> 0"
    then have "trimLeftSpace s = trimLeftSpace (drop (spaceWidth s) s)"
      by (subst trimLeftSpace.simps) simp
    then have "length (trimLeftSpace s) \<le> length s - spaceWidth s"
      using length_trimLeftSpace [of "drop (spaceWidth s) s"] by simp
    moreover have "length s - spaceWidth s < length s"
      using pos by (simp add: spaceWidth_drop_less)
    ultimately show False using \<open>length s \<le> length (trimLeftSpace s)\<close> by simp
  qed
  then have "trimLeftSpace s = s" by (simp add: trimLeftSpace_id_iff)
  with eq have "trimRightSpace s = s" by (simp add: strings_TrimSpace_def)
  then have "trailingSpaceWidth s = 0" by (simp add: trimRightSpace_id_iff)
  with l show "spaceWidth s = 0 \<and> trailingSpaceWidth s = 0" by simp
next
  assume a: "spaceWidth s = 0 \<and> trailingSpaceWidth s = 0"
  then have "trimLeftSpace s = s" by (simp add: trimLeftSpace_id_iff)
  moreover from a have "trimRightSpace s = s" by (simp add: trimRightSpace_id_iff)
  ultimately show "strings_TrimSpace s = s" by (simp add: strings_TrimSpace_def)
qed

text \<open>
  Claim C4. \<open>parseIPList\<close> returns the empty string when the input is empty after trimming
  white space, and when the input starts or ends with white space. Otherwise it returns the
  tokens of the input (split at white space) that parse as an IP address or as a CIDR, in
  their order, joined with single spaces; that is the empty string when no token is valid.
\<close>

theorem parseIPList_spec:
  "(strings_TrimSpace list = [] \<longrightarrow> parseIPList ParseIP ParseCIDR list = []) \<and>
   (0 < spaceWidth list \<or> 0 < trailingSpaceWidth list \<longrightarrow>
      parseIPList ParseIP ParseCIDR list = []) \<and>
   (strings_TrimSpace list \<noteq> [] \<and> spaceWidth list = 0 \<and> trailingSpaceWidth list = 0 \<longrightarrow>
      parseIPList ParseIP ParseCIDR list =
        strings_Join (filter (validIPOrCIDR ParseIP ParseCIDR) (strings_Fields list)) '' '') \<and>
   ((\<forall>ip \<in> set (strings_Fields list). \<not> validIPOrCIDR ParseIP ParseCIDR ip) \<longrightarrow>
      parseIPList ParseIP ParseCIDR list = [])"
proof (intro conjI impI)
  assume "strings_TrimSpace list = []"
  then show "parseIPList ParseIP ParseCIDR list = []" by (simp add: parseIPList_def)
next
  assume "0 < spaceWidth list \<or> 0 < trailingSpaceWidth list"
  then have "strings_TrimSpace list \<noteq> list" by (auto simp: strings_TrimSpace_id_iff)
  then show "parseIPList ParseIP ParseCIDR list = []" by (simp add: parseIPList_def Let_def)
next
  assume a: "strings_TrimSpace list \<noteq> [] \<and> spaceWidth list = 0 \<and> trailingSpaceWidth list = 0"
  then have "strings_TrimSpace list = list" by (simp add: strings_TrimSpace_id_iff)
  with a show "parseIPList ParseIP ParseCIDR list =
        strings_Join (filter (validIPOrCIDR ParseIP ParseCIDR) (strings_Fields list)) '' ''"
    by (simp add: parseIPList_def Let_def parseIPList_loop)
next
  assume "\<forall>ip \<in> set (strings_Fields list). \<not> validIPOrCIDR ParseIP ParseCIDR ip"
  then have "filter (validIPOrCIDR ParseIP ParseCIDR) (strings_Fields list) = []"
    by (simp add: filter_empty_conv)
  then show "parseIPList ParseIP ParseCIDR list = []"
    by (simp add: parseIPList_def Let_def parseIPList_loop)
qed


text \<open>
  The two examples of the claim, for all parsers that accept \<^verbatim>\<open>10.0.0.1\<close> and
  \<^verbatim>\<open>10.0.0.0/8\<close> and reject \<^verbatim>\<open>bogus\<close>.
\<close>

lemma parseIPList_examples:
  assumes "ParseIP ''10.0.0.1'' \<noteq> None"
    and "ParseIP ''10.0.0.0/8'' \<noteq> None \<or> (\<exists>n. ParseCIDR ''10.0.0.0/8'' = Inr n)"
    and "ParseIP ''bogus'' = None" and "ParseCIDR ''bogus'' = Inl err"
  shows "parseIPList ParseIP ParseCIDR '' 10.0.0.1 '' = []"
    and "parseIPList ParseIP ParseCIDR ''10.0.0.1 10.0.0.0/8 bogus'' = ''10.0.0.1 10.0.0.0/8''"
proof -
  have "0 < spaceWidth '' 10.0.0.1 ''" by (simp add: asciiSpace_def)
  then show "parseIPList ParseIP ParseCIDR '' 10.0.0.1 '' = []"
    using parseIPList_loop by (simp add: parseIPList_def Let_def strings_TrimSpace_id_iff)
next
  have f: "strings_Fields ''10.0.0.1 10.0.0.0/8 bogus'' = [''10.0.0.1'', ''10.0.0.0/8'', ''bogus'']"
    by (simp add: strings_Fields_def fieldsFrom.simps asciiSpace_def)
  have t: "strings_TrimSpace ''10.0.0.1 10.0.0.0/8 bogus'' = ''10.0.0.1 10.0.0.0/8 bogus''"
    by (simp add: strings_TrimSpace_id_iff trailingSpaceWidth_def asciiSpace_def)
  have v: "validIPOrCIDR ParseIP ParseCIDR ''10.0.0.1''"
    "validIPOrCIDR ParseIP ParseCIDR ''10.0.0.0/8''"
    "\<not> validIPOrCIDR ParseIP ParseCIDR ''bogus''"
    using assms by (auto simp: validIPOrCIDR_def)
  show "parseIPList ParseIP ParseCIDR ''10.0.0.1 10.0.0.0/8 bogus'' = ''10.0.0.1 10.0.0.0/8''"
    by (simp add: parseIPList_def Let_def t f parseIPList_loop v)
qed

theorem parseIPList_spec_witness:
  "parseIPList (\<lambda>s. if s = ''10.0.0.1'' then Some () else None)
     (\<lambda>s. if s = ''10.0.0.0/8'' then Inr () else Inl ''invalid CIDR address'')
     '' 10.0.0.1 '' = [] \<and>
   parseIPList (\<lambda>s. if s = ''10.0.0.1'' then Some () else None)
     (\<lambda>s. if s = ''10.0.0.0/8'' then Inr () else Inl ''invalid CIDR address'')
     ''10.0.0.1 10.0.0.0/8 bogus'' = ''10.0.0.1 10.0.0.0/8'' \<and>
   parseIPList (\<lambda>s. if s = ''10.0.0.1'' then Some () else None)
     (\<lambda>s. if s = ''10.0.0.0/8'' then Inr () else Inl ''invalid CIDR address'')
     ''bogus 10.0.0.256'' = []"
proof -
  let ?I = "\<lambda>s. if s = ''10.0.0.1'' then Some () else None"
  let ?C = "\<lambda>s. if s = ''10.0.0.0/8'' then Inr () else Inl ''invalid CIDR address''"
  have lead: "0 < spaceWidth '' 10.0.0.1 ''" by (simp add: asciiSpace_def)
  have a: "parseIPList ?I ?C '' 10.0.0.1 '' = []"
    using parseIPList_spec [of "'' 10.0.0.1 ''" ?I ?C] lead by blast
  have t: "strings_TrimSpace ''10.0.0.1 10.0.0.0/8 bogus'' \<noteq> [] \<and>
           spaceWidth ''10.0.0.1 10.0.0.0/8 bogus'' = 0 \<and>
           trailingSpaceWidth ''10.0.0.1 10.0.0.0/8 bogus'' = 0"
    by (simp add: strings_TrimSpace_def trimLeftSpace.simps trimRightSpace.simps
                  trailingSpaceWidth_def asciiSpace_def)
  have f: "strings_Fields ''10.0.0.1 10.0.0.0/8 bogus'' = [''10.0.0.1'', ''10.0.0.0/8'', ''bogus'']"
    by (simp add: strings_Fields_def fieldsFrom.simps asciiSpace_def)
  have "parseIPList ?I ?C ''10.0.0.1 10.0.0.0/8 bogus'' =
          strings_Join (filter (validIPOrCIDR ?I ?C)
                          (strings_Fields ''10.0.0.1 10.0.0.0/8 bogus'')) '' ''"
    using parseIPList_spec [of "''10.0.0.1 10.0.0.0/8 bogus''" ?I ?C] t by blast
  then have b: "parseIPList ?I ?C ''10.0.0.1 10.0.0.0/8 bogus'' = ''10.0.0.1 10.0.0.0/8''"
    by (simp add: f validIPOrCIDR_def)
  have f2: "strings_Fields ''bogus 10.0.0.256'' = [''bogus'', ''10.0.0.256'']"
    by (simp add: strings_Fields_def fieldsFrom.simps asciiSpace_def)
  have "\<forall>ip \<in> set (strings_Fields ''bogus 10.0.0.256''). \<not> validIPOrCIDR ?I ?C ip"
    by (simp add: f2 validIPOrCIDR_def)
  then have c: "parseIPList ?I ?C ''bogus 10.0.0.256'' = []"
    using parseIPList_spec [of "''bogus 10.0.0.256''" ?I ?C] by blast
  from a b c show ?thesis by simp
qed

subsection \<open>genSubdomainWildcardRegexp\<close>


























lemma genSubdomainWildcardRegexp_line_feed_example:
  "regexp_MatchString
     (genSubdomainWildcardRegexp GetDomainForHost ''www.example.test'' ''/foo'' False)
     (''api.example.test/foo/b'' @ [CHR 0x0A]) = Some False"
  by code_simp

end
